theory Spec2Isabelle
  imports Complex_Main "HOL-Library.Code_Target_Nat"
begin

section \<open>ECMAScript Number values\<close>

text \<open>
  The sidebar compares viewport widths with a pixel threshold, all of them ECMAScript
  Numbers (IEEE 754 binary64). A finite Number is modelled by the rational it denotes; the
  two infinities and NaN are values of their own. The two zeros are identified: the
  component only compares Numbers and tests them for truthiness, and neither operation
  tells \<open>-0\<close> from \<open>+0\<close>.
\<close>

datatype js_number = NaN | NegInfinity | Finite rat | Infinity

text \<open>\<open>x < y\<close> on Numbers: false as soon as one side is NaN.\<close>

fun js_lt :: "js_number \<Rightarrow> js_number \<Rightarrow> bool" where
  "js_lt NaN y = False"
| "js_lt x NaN = False"
| "js_lt x NegInfinity = False"
| "js_lt NegInfinity y = True"
| "js_lt Infinity y = False"
| "js_lt x Infinity = True"
| "js_lt (Finite a) (Finite b) = (a < b)"

text \<open>
  \<open>x <= y\<close> is evaluated by ECMAScript as "not \<open>y < x\<close>", except that it is false
  when the comparison is undefined (a NaN operand).
\<close>

definition js_le :: "js_number \<Rightarrow> js_number \<Rightarrow> bool" where
  "js_le x y = (if x = NaN \<or> y = NaN then False else \<not> js_lt y x)"

text \<open>ToBoolean on a Number: zero and NaN are falsy.\<close>

definition ToBoolean :: "js_number \<Rightarrow> bool" where
  "ToBoolean x = (x \<noteq> Finite 0 \<and> x \<noteq> NaN)"

subsection \<open>Rounding to binary64\<close>

text \<open>
  \<open>bitlen n\<close> is the number of binary digits of \<open>n\<close>, \<open>pow2 k\<close> the rational
  \<open>2\<^sup>k\<close> for an integer \<open>k\<close>, and \<open>ilog2 a\<close> the integer \<open>e\<close> with
  \<open>2\<^sup>e \<le> a < 2\<^sup>e\<^sup>+\<^sup>1\<close> for a positive rational \<open>a\<close>.
\<close>

fun bitlen :: "nat \<Rightarrow> nat" where
  "bitlen n = (if n = 0 then 0 else Suc (bitlen (n div 2)))"

declare bitlen.simps [simp del]

definition pow2 :: "int \<Rightarrow> rat" where
  "pow2 k = (if 0 \<le> k then 2 ^ nat k else 1 / 2 ^ nat (- k))"

definition ilog2 :: "rat \<Rightarrow> int" where
  "ilog2 a = (if 1 \<le> a then int (bitlen (nat \<lfloor>a\<rfloor>)) - 1
              else - int (bitlen (nat (\<lceil>1 / a\<rceil> - 1))))"

text \<open>Rounding a rational to the nearest integer, ties to the even one.\<close>

definition round_half_even :: "rat \<Rightarrow> int" where
  "round_half_even m =
     (let f = \<lfloor>m\<rfloor>; d = m - of_int f
      in if d < 1 / 2 then f
         else if 1 / 2 < d then f + 1
         else if even f then f else f + 1)"

text \<open>
  The Number value for a rational \<open>x\<close>: the nearest binary64 value, ties to the even
  significand. The finite binary64 values are the products \<open>m \<sdot> 2\<^sup>q\<close> of an integer
  \<open>m\<close> of magnitude below \<open>2\<^sup>5\<^sup>3\<close> and a power of two with \<open>q \<ge> -1074\<close> that are
  below \<open>2\<^sup>1\<^sup>0\<^sup>2\<^sup>4\<close> in magnitude; what rounds to \<open>2\<^sup>1\<^sup>0\<^sup>2\<^sup>4\<close> or beyond is an infinity.
\<close>

definition round_double :: "rat \<Rightarrow> js_number" where
  "round_double x =
     (if x = 0 then Finite 0
      else let a = \<bar>x\<bar>;
               q = max (ilog2 a - 52) (- 1074);
               r = of_int (round_half_even (a / pow2 q)) * pow2 q
           in if pow2 1024 \<le> r then (if x < 0 then NegInfinity else Infinity)
              else Finite (if x < 0 then - r else r))"

text \<open>\<open>x - y\<close> on Numbers.\<close>

fun js_sub :: "js_number \<Rightarrow> js_number \<Rightarrow> js_number" where
  "js_sub NaN y = NaN"
| "js_sub x NaN = NaN"
| "js_sub Infinity Infinity = NaN"
| "js_sub NegInfinity NegInfinity = NaN"
| "js_sub Infinity y = Infinity"
| "js_sub NegInfinity y = NegInfinity"
| "js_sub x Infinity = NegInfinity"
| "js_sub x NegInfinity = Infinity"
| "js_sub (Finite a) (Finite b) = round_double (a - b)"

subsection \<open>\<open>parseInt(string, 10)\<close>\<close>

text \<open>
  A \<^typ>\<open>char\<close> stands for the UTF-16 code unit of the same number, so the strings of the
  model are those whose code units are below 256. Of these, the white space and line
  terminators that \<open>parseInt\<close> skips are TAB, LF, VT, FF, CR, SP and NBSP.
\<close>

definition is_white_space :: "char \<Rightarrow> bool" where
  "is_white_space c = (of_char c \<in> {9, 10, 11, 12, 13, 32, 160 :: nat})"

definition is_digit :: "char \<Rightarrow> bool" where
  "is_digit c = (48 \<le> (of_char c :: nat) \<and> (of_char c :: nat) \<le> 57)"

definition digit_value :: "char \<Rightarrow> int" where
  "digit_value c = int (of_char c) - 48"

definition decimal_value :: "string \<Rightarrow> int" where
  "decimal_value ds = foldl (\<lambda>acc c. 10 * acc + digit_value c) 0 ds"

text \<open>
  The steps of \<open>parseInt\<close> for radix 10: trim leading white space, read an optional sign,
  take the longest prefix of decimal digits; no digit gives NaN, otherwise the Number
  value for the signed integer. (ECMAScript lets an implementation replace the digits
  after the 20th significant one by zeros; the model keeps them.)
\<close>

definition parseInt_10 :: "string \<Rightarrow> js_number" where
  "parseInt_10 inputString =
     (let S = dropWhile is_white_space inputString;
          sign = (if S \<noteq> [] \<and> hd S = CHR ''-'' then - 1 else 1 :: int);
          S' = (if S \<noteq> [] \<and> (hd S = CHR ''+'' \<or> hd S = CHR ''-'') then tl S else S);
          Z = takeWhile is_digit S'
      in if Z = [] then NaN
         else round_double (of_int (sign * decimal_value Z)))"

section \<open>The host page: window, document, DOM nodes\<close>

text \<open>
  An event target keeps its listeners in a list without duplicates. A callback is
  identified by the component instance whose bound method it is; \<open>Foreign\<close> callbacks
  are those of the rest of the page.
\<close>

datatype callback =
    CheckMobileOnResize nat
  | HandleClickOutside nat
  | Foreign nat

fun callback_owner :: "callback \<Rightarrow> nat option" where
  "callback_owner (CheckMobileOnResize i) = Some i"
| "callback_owner (HandleClickOutside i) = Some i"
| "callback_owner (Foreign _) = None"

record EventTarget =
  listeners :: "(string \<times> callback) list"

record Window = EventTarget +
  innerWidth :: js_number

definition addEventListener ::
  "string \<Rightarrow> callback \<Rightarrow> 'a EventTarget_scheme \<Rightarrow> 'a EventTarget_scheme" where
  "addEventListener type cb t =
     (if (type, cb) \<in> set (listeners t) then t
      else t\<lparr>listeners := listeners t @ [(type, cb)]\<rparr>)"

definition removeEventListener ::
  "string \<Rightarrow> callback \<Rightarrow> 'a EventTarget_scheme \<Rightarrow> 'a EventTarget_scheme" where
  "removeEventListener type cb t = t\<lparr>listeners := remove1 (type, cb) (listeners t)\<rparr>"

datatype js_error = TypeError | ReferenceError

text \<open>
  The component reads the global \<open>window\<close> by its bare identifier. Outside a browser no
  binding of that name exists: the identifier is unresolvable, and evaluating it throws a
  ReferenceError, also inside the tests \<open>window ? ... : ...\<close>, \<open>window || {}\<close> and
  \<open>!window\<close>. Where the binding exists it holds the window object or a falsy value
  (\<open>None\<close>), the only absence these tests can see. The component never tests for the
  \<open>document\<close>, which is taken to be there.
\<close>

datatype window_binding = Unresolvable | Resolves "Window option"

definition read_window :: "window_binding \<Rightarrow> js_error + Window option" where
  "read_window b = (case b of Unresolvable \<Rightarrow> Inl ReferenceError | Resolves v \<Rightarrow> Inr v)"

record Globals =
  window :: window_binding
  document :: EventTarget

text \<open>A DOM node with its identity and its children; \<open>contains\<close> is \<open>Node.contains\<close>:
  whether the other node is an inclusive descendant, false for \<open>null\<close>.\<close>

datatype dom_node = Element nat "dom_node list"

fun node_ids :: "dom_node \<Rightarrow> nat list" where
  "node_ids (Element i cs) = i # concat (map node_ids cs)"

definition contains :: "dom_node \<Rightarrow> nat option \<Rightarrow> bool" where
  "contains n other = (case other of None \<Rightarrow> False | Some t \<Rightarrow> t \<in> set (node_ids n))"

record MouseEvent =
  target :: "nat option"

section \<open>The Sidebar component\<close>

text \<open>Modelled from the spec: the enumeration \<open>PageConfig.SidebarState\<close> of the generated
  protobuf module, which is not among the sources; the spec's InitialStateDirective is
  one of EXPANDED, COLLAPSED, AUTO, the three names the \<open>switch\<close> of \<open>shouldCollapse\<close>
  uses. The prop is optional: \<open>None\<close> is \<open>undefined\<close>.\<close>

datatype SidebarState = AUTO | EXPANDED | COLLAPSED

text \<open>Of the theme the component reads \<open>theme.breakpoints.md\<close>, a string.\<close>

record Breakpoints =
  md :: string

record Theme =
  breakpoints :: Breakpoints

text \<open>The props the component's logic reads. \<open>children\<close>, \<open>appPages\<close> and
  \<open>onPageChange\<close> are handed to the rendered elements only.\<close>

record SidebarProps =
  chevronDownshift :: js_number
  initialSidebarState :: "SidebarState option"
  theme :: Theme
  hasElements :: bool
  currentPageScriptHash :: string
  hideSidebarNav :: bool
  pageLinkBaseUrl :: string

record State =
  collapsedSidebar :: bool
  lastInnerWidth :: js_number
  hideScrollbar :: bool

text \<open>
  Every \<open>setState\<close> call of the component passes an object with one key. React merges
  such an object into the state when it applies the update.
\<close>

datatype state_update =
    Update_collapsedSidebar bool
  | Update_lastInnerWidth js_number
  | Update_hideScrollbar bool

fun merge_state :: "State \<Rightarrow> state_update \<Rightarrow> State" where
  "merge_state s (Update_collapsedSidebar b) = s\<lparr>collapsedSidebar := b\<rparr>"
| "merge_state s (Update_lastInnerWidth w) = s\<lparr>lastInnerWidth := w\<rparr>"
| "merge_state s (Update_hideScrollbar b) = s\<lparr>hideScrollbar := b\<rparr>"

text \<open>The two static methods.\<close>

definition calculateMaxBreakpoint :: "string \<Rightarrow> js_number" where
  "calculateMaxBreakpoint v = js_sub (parseInt_10 v) (round_double (2 / 100))"

text \<open>\<open>shouldCollapse\<close> reads \<open>window\<close> in its last branch only.
  \<open>const { innerWidth } = window || {}\<close> leaves \<open>innerWidth\<close> undefined when the binding
  holds a falsy value; \<open>undefined\<close> is falsy.\<close>

definition shouldCollapse :: "window_binding \<Rightarrow> SidebarProps \<Rightarrow> js_number \<Rightarrow> js_error + bool" where
  "shouldCollapse wb p mediumBreakpointPx =
     (case initialSidebarState p of
        Some EXPANDED \<Rightarrow> Inr False
      | Some COLLAPSED \<Rightarrow> Inr True
      | _ \<Rightarrow>
          (case read_window wb of
             Inl e \<Rightarrow> Inl e
           | Inr win \<Rightarrow>
               Inr (case map_option innerWidth win of
                      None \<Rightarrow> False
                    | Some w \<Rightarrow> if ToBoolean w then js_le w mediumBreakpointPx else False)))"

text \<open>An instance: its identity (which its bound handlers carry), props, state, the
  state updates that \<open>setState\<close> has enqueued and React has not applied yet, the
  private field \<open>mediumBreakpointPx\<close> and the ref to its root element.\<close>

record Sidebar =
  this :: nat
  props :: SidebarProps
  state :: State
  pending :: "state_update list"
  mediumBreakpointPx :: js_number
  sidebarRef :: "dom_node option"

text \<open>
  \<open>this.setState(update)\<close> enqueues the update and leaves \<open>this.state\<close> as it is: code
  that runs before React applies the queue still reads the old state. \<open>flush\<close> is React
  applying the queue, in order, which it does at the latest when the event handler or
  lifecycle method that is running returns.
\<close>

definition setState :: "state_update \<Rightarrow> Sidebar \<Rightarrow> Sidebar" where
  "setState u c = c\<lparr>pending := pending c @ [u]\<rparr>"

definition flush :: "Sidebar \<Rightarrow> Sidebar" where
  "flush c = c\<lparr>state := foldl merge_state (state c) (pending c), pending := []\<rparr>"

text \<open>The constructor evaluates \<open>shouldCollapse\<close> first and \<open>window ? ... : Infinity\<close>
  second; either may throw.\<close>

definition Sidebar_constructor :: "window_binding \<Rightarrow> nat \<Rightarrow> SidebarProps \<Rightarrow> js_error + Sidebar" where
  "Sidebar_constructor wb i p =
     (let bp = calculateMaxBreakpoint (md (breakpoints (theme p)))
      in case shouldCollapse wb p bp of
           Inl e \<Rightarrow> Inl e
         | Inr collapsed \<Rightarrow>
             (case read_window wb of
                Inl e \<Rightarrow> Inl e
              | Inr win \<Rightarrow>
                  Inr \<lparr> this = i,
                        props = p,
                        state = \<lparr> collapsedSidebar = collapsed,
                                  lastInnerWidth =
                                    (case win of Some w \<Rightarrow> innerWidth w | None \<Rightarrow> Infinity),
                                  hideScrollbar = False \<rparr>,
                        pending = [],
                        mediumBreakpointPx = bp,
                        sidebarRef = None \<rparr>))"

text \<open>\<open>componentDidUpdate\<close> runs on the instance whose \<open>props\<close> are already the new
  ones. An instance on which an exception escapes is not used further.\<close>

definition componentDidUpdate ::
  "window_binding \<Rightarrow> SidebarProps \<Rightarrow> Sidebar \<Rightarrow> js_error + Sidebar" where
  "componentDidUpdate wb prevProps c =
     (let c' = c\<lparr>mediumBreakpointPx :=
                  calculateMaxBreakpoint (md (breakpoints (theme (props c))))\<rparr>
      in if initialSidebarState (props c') \<noteq> initialSidebarState prevProps
         then (case shouldCollapse wb (props c') (mediumBreakpointPx c') of
                 Inl e \<Rightarrow> Inl e
               | Inr collapsed \<Rightarrow> Inr (setState (Update_collapsedSidebar collapsed) c'))
         else Inr c')"

text \<open>Calling a method of a falsy \<open>window\<close> throws a TypeError.\<close>

definition componentDidMount :: "Sidebar \<Rightarrow> Globals \<Rightarrow> js_error + Globals" where
  "componentDidMount c g =
     (case read_window (window g) of
        Inl e \<Rightarrow> Inl e
      | Inr None \<Rightarrow> Inl TypeError
      | Inr (Some w) \<Rightarrow>
          Inr (g\<lparr>window :=
                  Resolves (Some (addEventListener ''resize'' (CheckMobileOnResize (this c)) w)),
                document := addEventListener ''mousedown'' (HandleClickOutside (this c))
                              (document g)\<rparr>))"

definition componentWillUnmount :: "Sidebar \<Rightarrow> Globals \<Rightarrow> js_error + Globals" where
  "componentWillUnmount c g =
     (case read_window (window g) of
        Inl e \<Rightarrow> Inl e
      | Inr None \<Rightarrow> Inl TypeError
      | Inr (Some w) \<Rightarrow>
          Inr (g\<lparr>window :=
                  Resolves (Some (removeEventListener ''resize'' (CheckMobileOnResize (this c)) w)),
                document := removeEventListener ''mousedown'' (HandleClickOutside (this c))
                              (document g)\<rparr>))"

text \<open>In \<open>handleClickOutside\<close> the test of \<open>this.sidebarRef\<close> always succeeds (the ref
  object is created with the instance), so \<open>window\<close> is read next; \<open>current\<close> is the root
  element, \<open>null\<close> while the component is not mounted.\<close>

definition handleClickOutside ::
  "window_binding \<Rightarrow> MouseEvent \<Rightarrow> Sidebar \<Rightarrow> js_error + Sidebar" where
  "handleClickOutside wb event c =
     (case read_window wb of
        Inl e \<Rightarrow> Inl e
      | Inr None \<Rightarrow> Inr c
      | Inr (Some w) \<Rightarrow>
          (case sidebarRef c of
             None \<Rightarrow> Inr c
           | Some current \<Rightarrow>
               if \<not> contains current (target event) \<and> js_le (innerWidth w) (mediumBreakpointPx c)
               then Inr (setState (Update_collapsedSidebar True) c)
               else Inr c))"

text \<open>\<open>checkMobileOnResize\<close> reads both conditions from the window and from
  \<open>this.state\<close> before its first \<open>setState\<close>.\<close>

definition checkMobileOnResize :: "window_binding \<Rightarrow> Sidebar \<Rightarrow> js_error + bool \<times> Sidebar" where
  "checkMobileOnResize wb c =
     (case read_window wb of
        Inl e \<Rightarrow> Inl e
      | Inr None \<Rightarrow> Inr (False, c)
      | Inr (Some w) \<Rightarrow>
          (let c1 = (if js_lt (innerWidth w) (lastInnerWidth (state c))
                        \<and> js_le (innerWidth w) (mediumBreakpointPx c)
                     then setState (Update_collapsedSidebar True) c else c);
               c2 = setState (Update_lastInnerWidth (innerWidth w)) c1
           in Inr (True, c2)))"


definition hideScrollbar_set :: "bool \<Rightarrow> Sidebar \<Rightarrow> Sidebar" where
  "hideScrollbar_set newValue c = setState (Update_hideScrollbar newValue) c"

section \<open>Example inputs\<close>

text \<open>
  The inputs of the spec's examples: a theme whose medium breakpoint is \<open>100px\<close>, props
  with a given directive, a window of a given width, an instance with a given collapsed
  flag and last recorded width, no update enqueued, whose root element has the nodes 10
  to 13, and a page
  with listeners of its own before the component mounts and some time later.
\<close>

definition theme_100px :: Theme where
  "theme_100px = \<lparr> breakpoints = \<lparr> md = ''100px'' \<rparr> \<rparr>"

definition example_props :: "SidebarState option \<Rightarrow> SidebarProps" where
  "example_props d =
     \<lparr> chevronDownshift = Finite 0, initialSidebarState = d, theme = theme_100px,
       hasElements = True, currentPageScriptHash = ''main'', hideSidebarNav = False,
       pageLinkBaseUrl = [] \<rparr>"

definition example_window :: "rat \<Rightarrow> Window" where
  "example_window width = \<lparr> listeners = [], innerWidth = Finite width \<rparr>"

definition example_sidebar :: "bool \<Rightarrow> rat \<Rightarrow> Sidebar" where
  "example_sidebar collapsed width =
     \<lparr> this = 1, props = example_props (Some AUTO),
       state = \<lparr> collapsedSidebar = collapsed, lastInnerWidth = Finite width,
                 hideScrollbar = False \<rparr>,
       pending = [],
       mediumBreakpointPx = calculateMaxBreakpoint ''100px'',
       sidebarRef = Some (Element 10 [Element 11 [], Element 12 [Element 13 []]]) \<rparr>"

definition example_globals :: Globals where
  "example_globals =
     \<lparr> window = Resolves (Some \<lparr> listeners = [(''scroll'', Foreign 7)],
                                     innerWidth = Finite 200 \<rparr>),
       document = \<lparr> listeners = [(''mousedown'', Foreign 8)] \<rparr> \<rparr>"

definition example_globals_later :: Globals where
  "example_globals_later =
     \<lparr> window = Resolves (Some \<lparr> listeners = [(''scroll'', Foreign 7),
                                               (''resize'', CheckMobileOnResize 1),
                                               (''resize'', Foreign 9)],
                                  innerWidth = Finite 80 \<rparr>),
       document = \<lparr> listeners = [(''mousedown'', HandleClickOutside 1),
                                 (''mousedown'', Foreign 8)] \<rparr> \<rparr>"

lemmas example_defs = example_sidebar_def example_props_def example_window_def theme_100px_def

section \<open>Properties of the Number model\<close>

subsection \<open>Powers of two, bit lengths and binary logarithms\<close>

lemma pow2_powi: "pow2 k = 2 powi k"
  by (simp add: pow2_def power_int_def power_one_over inverse_eq_divide)

lemma pow2_pos: "0 < pow2 k"
  by (simp add: pow2_def)

lemma pow2_add: "pow2 (i + j) = pow2 i * pow2 j"
  by (simp add: pow2_powi power_int_add)

lemma pow2_nat: "pow2 (int n) = 2 ^ n"
  by (simp add: pow2_def)

lemma pow2_neg_nat: "pow2 (- int n) = 1 / 2 ^ n"
  by (simp add: pow2_powi power_int_minus_divide)

lemma pow2_less_iff: "pow2 i < pow2 j \<longleftrightarrow> i < j"
proof
  assume "i < j"
  then show "pow2 i < pow2 j"
    by (simp add: pow2_powi power_int_strict_increasing)
next
  assume a: "pow2 i < pow2 j"
  show "i < j"
  proof (rule ccontr)
    assume "\<not> i < j"
    then have "j \<le> i" by simp
    then have "pow2 j \<le> pow2 i"
      by (simp add: pow2_powi power_int_increasing)
    with a show False by simp
  qed
qed

lemma pow2_le_iff: "pow2 i \<le> pow2 j \<longleftrightarrow> i \<le> j"
  using pow2_less_iff [of j i] by (simp add: not_less [symmetric])

lemma bitlen_upper: "n < 2 ^ bitlen n"
proof (induction n rule: bitlen.induct)
  case (1 n)
  show ?case
  proof (cases "n = 0")
    case True
    then show ?thesis by (simp add: bitlen.simps)
  next
    case False
    then have "n div 2 < 2 ^ bitlen (n div 2)" by (rule "1.IH")
    then have "n < 2 * 2 ^ bitlen (n div 2)" by linarith
    with False show ?thesis by (subst bitlen.simps) simp
  qed
qed

lemma bitlen_pos: "0 < n \<Longrightarrow> 0 < bitlen n"
  by (subst bitlen.simps) simp

lemma bitlen_lower: "0 < n \<Longrightarrow> 2 ^ (bitlen n - 1) \<le> n"
proof (induction n rule: bitlen.induct)
  case (1 n)
  then have n: "n \<noteq> 0" by simp
  have b: "bitlen n = Suc (bitlen (n div 2))"
    using n by (subst bitlen.simps) simp
  show ?case
  proof (cases "n div 2 = 0")
    case True
    then have "bitlen (n div 2) = 0" by (simp add: bitlen.simps)
    with b "1.prems" show ?thesis by simp
  next
    case False
    then have h: "0 < n div 2" by simp
    then have "2 ^ (bitlen (n div 2) - 1) \<le> n div 2"
      using n by (intro "1.IH") simp_all
    moreover have "bitlen (n div 2) = Suc (bitlen (n div 2) - 1)"
      using bitlen_pos [OF h] by simp
    ultimately have "2 ^ bitlen (n div 2) \<le> 2 * (n div 2)"
      using power_Suc [of "2::nat" "bitlen (n div 2) - 1"] by simp
    then show ?thesis using b by simp
  qed
qed

lemma ilog2_lower: assumes "0 < a" shows "pow2 (ilog2 a) \<le> a"
proof (cases "1 \<le> a")
  case True
  define f where "f = nat \<lfloor>a\<rfloor>"
  have f: "0 < f" using True by (simp add: f_def)
  have "rat_of_nat f = of_int \<lfloor>a\<rfloor>"
    using True by (simp add: f_def)
  then have fa: "of_nat f \<le> a" by simp
  have "ilog2 a = int (bitlen f - 1)"
    using True bitlen_pos [OF f] by (simp add: ilog2_def f_def)
  then have "pow2 (ilog2 a) = 2 ^ (bitlen f - 1)" by (simp add: pow2_nat)
  also have "\<dots> \<le> of_nat f"
  proof -
    have "rat_of_nat (2 ^ (bitlen f - 1)) \<le> of_nat f"
      using bitlen_lower [OF f] by (simp only: of_nat_le_iff)
    then show ?thesis by simp
  qed
  finally show ?thesis using fa by simp
next
  case False
  define m where "m = nat (\<lceil>1 / a\<rceil> - 1)"
  have "1 < 1 / a" using False assms by simp
  then have c: "2 \<le> \<lceil>1 / a\<rceil>" by linarith
  have "1 / a \<le> of_int \<lceil>1 / a\<rceil>" by simp
  also have "\<dots> = of_nat m + 1"
  proof -
    have "0 \<le> \<lceil>1 / a\<rceil> - 1" using c by linarith
    then have "rat_of_nat m = of_int (\<lceil>1 / a\<rceil> - 1)"
      unfolding m_def by (rule of_nat_nat)
    then show ?thesis by simp
  qed
  also have "of_nat m + 1 \<le> (2::rat) ^ bitlen m"
  proof -
    have "Suc m \<le> 2 ^ bitlen m"
      using bitlen_upper [of m] by simp
    then have "rat_of_nat (Suc m) \<le> of_nat (2 ^ bitlen m)"
      by (simp only: of_nat_le_iff)
    then show ?thesis by simp
  qed
  finally have "1 / a \<le> 2 ^ bitlen m" .
  then have "1 / 2 ^ bitlen m \<le> a"
    using assms by (simp add: field_simps)
  moreover have "ilog2 a = - int (bitlen m)"
    using False by (simp add: ilog2_def m_def)
  ultimately show ?thesis by (simp only: pow2_neg_nat)
qed

lemma ilog2_upper: assumes "0 < a" shows "a < pow2 (ilog2 a + 1)"
proof (cases "1 \<le> a")
  case True
  define f where "f = nat \<lfloor>a\<rfloor>"
  have f: "0 < f" using True by (simp add: f_def)
  have "rat_of_nat f = of_int \<lfloor>a\<rfloor>"
    using True by (simp add: f_def)
  then have "a < of_nat f + 1" by linarith
  also have "of_nat f + 1 \<le> (2::rat) ^ bitlen f"
  proof -
    have "Suc f \<le> 2 ^ bitlen f"
      using bitlen_upper [of f] by simp
    then have "rat_of_nat (Suc f) \<le> of_nat (2 ^ bitlen f)"
      by (simp only: of_nat_le_iff)
    then show ?thesis by simp
  qed
  also have "\<dots> = pow2 (int (bitlen f))" by (simp add: pow2_nat)
  also have "int (bitlen f) = ilog2 a + 1"
    using True by (simp add: ilog2_def f_def)
  finally show ?thesis .
next
  case False
  define m where "m = nat (\<lceil>1 / a\<rceil> - 1)"
  have "1 < 1 / a" using False assms by simp
  then have c: "2 \<le> \<lceil>1 / a\<rceil>" by linarith
  then have "0 \<le> \<lceil>1 / a\<rceil> - 1" by linarith
  then have mc: "rat_of_nat m = of_int (\<lceil>1 / a\<rceil> - 1)"
    unfolding m_def by (rule of_nat_nat)
  have m: "0 < m" using c by (simp add: m_def)
  have "(2::rat) ^ (bitlen m - 1) \<le> of_nat m"
  proof -
    have "rat_of_nat (2 ^ (bitlen m - 1)) \<le> of_nat m"
      using bitlen_lower [OF m] by (simp only: of_nat_le_iff)
    then show ?thesis by simp
  qed
  also have "of_nat m < 1 / a"
    using mc by linarith
  finally have "2 ^ (bitlen m - 1) < 1 / a" .
  then have "a < 1 / 2 ^ (bitlen m - 1)"
    using assms by (simp add: field_simps)
  moreover have "ilog2 a + 1 = - int (bitlen m - 1)"
    using False bitlen_pos [OF m] by (simp add: ilog2_def m_def)
  ultimately show ?thesis by (simp only: pow2_neg_nat)
qed

subsection \<open>Rounding\<close>

text \<open>
  \<open>round_half_even\<close> moves its argument by at most one half and fixes the integers. So
  \<open>round_double\<close> fixes every value \<open>m \<sdot> 2\<^sup>q\<close> with \<open>|m| < 2\<^sup>5\<^sup>3\<close> and \<open>q \<ge> -1074\<close> below
  the overflow threshold (the binary64 values), in particular the integers of magnitude
  below \<open>2\<^sup>5\<^sup>3\<close>, and moves any other positive value by at most half a unit in the last
  place.
\<close>

lemma round_half_even_of_int: "round_half_even (of_int n) = n"
  by (simp add: round_half_even_def)

lemma round_half_even_nearest: "\<bar>of_int (round_half_even m) - m\<bar> \<le> 1 / 2"
proof -
  have "of_int \<lfloor>m\<rfloor> \<le> m" "m < of_int \<lfloor>m\<rfloor> + 1" by linarith+
  then show ?thesis
    by (auto simp: round_half_even_def Let_def abs_le_iff)
qed

lemma round_double_representable:
  assumes "m \<noteq> 0" and "\<bar>m\<bar> < 2 ^ 53" and "- 1074 \<le> q"
    and "of_int \<bar>m\<bar> * pow2 q < pow2 1024"
  shows "round_double (of_int m * pow2 q) = Finite (of_int m * pow2 q)"
proof -
  define x where "x = rat_of_int m * pow2 q"
  define a where "a = \<bar>x\<bar>"
  define e where "e = ilog2 a"
  define q' where "q' = max (e - 52) (- 1074)"
  have a: "a = of_int \<bar>m\<bar> * pow2 q"
    using pow2_pos [of q] by (simp add: a_def x_def abs_mult)
  have x0: "x \<noteq> 0"
    using assms(1) pow2_pos [of q] by (simp add: x_def)
  then have apos: "0 < a" by (simp add: a_def)
  have "rat_of_int \<bar>m\<bar> < of_int (2 ^ 53)"
    using assms(2) by (simp only: of_int_less_iff)
  then have "a < 2 ^ 53 * pow2 q"
    using pow2_pos [of q] by (simp add: a)
  also have "\<dots> = pow2 53 * pow2 q"
    by (simp add: pow2_def)
  also have "\<dots> = pow2 (53 + q)"
    by (rule pow2_add [symmetric])
  finally have "a < pow2 (53 + q)" .
  moreover have "pow2 e \<le> a"
    unfolding e_def using apos by (rule ilog2_lower)
  ultimately have "pow2 e < pow2 (53 + q)" by simp
  then have "e < 53 + q" by (simp only: pow2_less_iff)
  then have qq: "q' \<le> q"
    using assms(3) by (simp add: q'_def)
  have "pow2 q = pow2 (q' + (q - q'))" by simp
  also have "\<dots> = pow2 q' * pow2 (q - q')" by (rule pow2_add)
  also have "pow2 (q - q') = 2 ^ nat (q - q')"
    using qq by (simp add: pow2_def)
  finally have "a / pow2 q' = of_int (\<bar>m\<bar> * 2 ^ nat (q - q'))"
    using pow2_pos [of q'] by (simp add: a)
  then have "round_half_even (a / pow2 q') = \<bar>m\<bar> * 2 ^ nat (q - q')"
    by (simp only: round_half_even_of_int)
  moreover have "of_int (\<bar>m\<bar> * 2 ^ nat (q - q')) * pow2 q' = a"
    using \<open>a / pow2 q' = of_int (\<bar>m\<bar> * 2 ^ nat (q - q'))\<close> pow2_pos [of q']
    by (simp add: field_simps)
  ultimately have r: "of_int (round_half_even (a / pow2 q')) * pow2 q' = a"
    by simp
  have "\<not> pow2 1024 \<le> a"
    using assms(4) by (simp add: a)
  then have "round_double x = Finite (if x < 0 then - a else a)"
    using x0 r by (simp add: round_double_def Let_def a_def [symmetric] e_def [symmetric]
        q'_def [symmetric])
  also have "(if x < 0 then - a else a) = x"
    by (simp add: a_def)
  finally show ?thesis by (simp only: x_def)
qed

lemma round_double_of_int:
  assumes "\<bar>n\<bar> < 2 ^ 53"
  shows "round_double (of_int n) = Finite (of_int n)"
proof (cases "n = 0")
  case True
  then show ?thesis by (simp add: round_double_def)
next
  case False
  have "rat_of_int \<bar>n\<bar> < of_int (2 ^ 53)"
    using assms by (simp only: of_int_less_iff)
  then have "rat_of_int \<bar>n\<bar> * pow2 0 < pow2 1024"
    by (simp add: pow2_def)
  with False assms have "round_double (of_int n * pow2 0) = Finite (of_int n * pow2 0)"
    by (intro round_double_representable) simp_all
  then show ?thesis by (simp add: pow2_def)
qed

lemma round_double_error:
  assumes "0 < x" and "q = max (ilog2 x - 52) (- 1074)"
    and "r = of_int (round_half_even (x / pow2 q)) * pow2 q"
  shows "\<bar>r - x\<bar> \<le> pow2 q / 2"
    and "r < pow2 1024 \<Longrightarrow> round_double x = Finite r"
proof -
  have "\<bar>of_int (round_half_even (x / pow2 q)) - x / pow2 q\<bar> * pow2 q \<le> 1 / 2 * pow2 q"
    using round_half_even_nearest [of "x / pow2 q"] pow2_pos [of q]
    by (intro mult_right_mono) simp_all
  moreover have "\<bar>of_int (round_half_even (x / pow2 q)) - x / pow2 q\<bar> * pow2 q = \<bar>r - x\<bar>"
  proof -
    have "\<bar>of_int (round_half_even (x / pow2 q)) - x / pow2 q\<bar> * pow2 q
            = \<bar>(of_int (round_half_even (x / pow2 q)) - x / pow2 q) * pow2 q\<bar>"
      using pow2_pos [of q] by (simp add: abs_mult)
    also have "(of_int (round_half_even (x / pow2 q)) - x / pow2 q) * pow2 q = r - x"
      using pow2_pos [of q] by (simp add: assms(3) left_diff_distrib)
    finally show ?thesis .
  qed
  ultimately show "\<bar>r - x\<bar> \<le> pow2 q / 2" by simp
  show "round_double x = Finite r" if "r < pow2 1024"
    using that assms by (simp add: round_double_def Let_def)
qed

subsection \<open>The Numbers of the examples\<close>

text \<open>
  The literals \<open>0.02\<close> and \<open>99.98\<close> as Numbers, and the difference \<open>100 - 0.02\<close>: the
  rounded difference is the Number that the literal \<open>99.98\<close> denotes.
\<close>

lemma floor_rat_divide_numeral:
  "\<lfloor>numeral a / numeral b :: rat\<rfloor> = numeral a div numeral b"
  by (metis floor_divide_of_int_eq of_int_numeral)

lemma ceiling_rat_divide_numeral:
  "\<lceil>numeral a / numeral b :: rat\<rceil> = - (- numeral a div numeral b)"
  using ceiling_divide_eq_div [of "numeral a" "numeral b", where ?'a = rat] by simp

lemmas eval_round = pow2_def round_half_even_def Let_def floor_rat_divide_numeral
  ceiling_rat_divide_numeral

lemma round_double_pos:
  assumes "0 < x" and "ilog2 x = e" and "max (e - 52) (- 1074) = q"
    and "round_half_even (x / pow2 q) = m" and "of_int m * pow2 q < pow2 1024"
  shows "round_double x = Finite (of_int m * pow2 q)"
  using assms by (simp add: round_double_def Let_def)

lemma round_double_0_02: "round_double (2 / 100) = Finite (5764607523034235 / 2 ^ 58)"
proof -
  have e: "ilog2 (2 / 100) = - 6" by (simp add: ilog2_def bitlen.simps eval_round)
  have q: "max (- 6 - 52) (- 1074) = (- 58 :: int)" by simp
  have m: "round_half_even (2 / 100 / pow2 (- 58)) = 5764607523034235"
    by (simp add: eval_round)
  have b: "of_int 5764607523034235 * pow2 (- 58) < pow2 1024"
    by (simp add: pow2_def)
  have "round_double (2 / 100) = Finite (of_int 5764607523034235 * pow2 (- 58))"
    by (rule round_double_pos [OF _ e q m b]) simp
  then show ?thesis by (simp add: pow2_def)
qed


lemma round_double_difference:
  "round_double (100 - 5764607523034235 / 2 ^ 58) = Finite (7035467042882847 / 2 ^ 46)"
proof -
  let ?x = "100 - 5764607523034235 / 2 ^ 58 :: rat"
  have e: "ilog2 ?x = 6" by (simp add: ilog2_def bitlen.simps eval_round)
  have q: "max (6 - 52) (- 1074) = (- 46 :: int)" by simp
  have m: "round_half_even (?x / pow2 (- 46)) = 7035467042882847"
    by (simp add: eval_round)
  have b: "of_int 7035467042882847 * pow2 (- 46) < pow2 1024"
    by (simp add: pow2_def)
  have "round_double ?x = Finite (of_int 7035467042882847 * pow2 (- 46))"
    by (rule round_double_pos [OF _ e q m b]) simp
  then show ?thesis by (simp add: pow2_def)
qed

subsection \<open>Parsing and the threshold\<close>

text \<open>
  A string that starts with decimal digits parses to the Number value for these digits; the
  rest of the string is ignored.
\<close>

lemma parseInt_10_leading_digits:
  assumes "ds \<noteq> []" and "\<forall>c\<in>set ds. is_digit c" and "rest = [] \<or> \<not> is_digit (hd rest)"
  shows "parseInt_10 (ds @ rest) = round_double (of_int (decimal_value ds))"
proof -
  obtain d ds' where ds: "ds = d # ds'"
    using assms(1) by (cases ds) auto
  have d: "is_digit d" using assms(2) ds by simp
  have nw: "\<not> is_white_space d"
    using d by (auto simp: is_digit_def is_white_space_def)
  have ns: "d \<noteq> CHR ''+''" "d \<noteq> CHR ''-''"
    using d by (auto simp: is_digit_def)
  have tw: "takeWhile is_digit (ds @ rest) = ds"
    using assms(2,3) by (cases rest) (simp_all add: takeWhile_append2)
  have "dropWhile is_white_space (ds @ rest) = ds @ rest"
    using nw ds by simp
  then show ?thesis
    using ns tw assms(1) ds by (simp add: parseInt_10_def Let_def)
qed

lemma parseInt_10_100px: "parseInt_10 ''100px'' = Finite 100"
proof -
  have "parseInt_10 ''100px'' = round_double (of_int 100)"
    by (simp add: parseInt_10_def is_white_space_def is_digit_def decimal_value_def
        digit_value_def)
  also have "\<dots> = Finite (of_int 100)"
    by (rule round_double_of_int) simp
  finally show ?thesis by simp
qed

lemma calculateMaxBreakpoint_100px:
  "calculateMaxBreakpoint ''100px'' = Finite (7035467042882847 / 2 ^ 46)"
  unfolding calculateMaxBreakpoint_def parseInt_10_100px round_double_0_02 js_sub.simps
  by (rule round_double_difference)

text \<open>
  For a breakpoint of \<open>n\<close> pixels, \<open>1 \<le> n \<le> 2\<^sup>4\<^sup>7\<close>, the threshold lies strictly between
  \<open>n - 1\<close> and \<open>n\<close>: the margin survives the rounding of the subtraction.
\<close>

lemma calculateMaxBreakpoint_between:
  assumes "1 \<le> n" and "n \<le> 2 ^ 47" and "parseInt_10 v = Finite (of_int n)"
  shows "\<exists>r. calculateMaxBreakpoint v = Finite r \<and> of_int n - 1 < r \<and> r < of_int n"
proof -
  define c :: rat where "c = 5764607523034235 / 2 ^ 58"
  define x where "x = rat_of_int n - c"
  define q where "q = max (ilog2 x - 52) (- 1074)"
  define r where "r = of_int (round_half_even (x / pow2 q)) * pow2 q"
  have c: "1 / 128 < c" "c < 1 / 2" by (simp_all add: c_def)
  have n1: "1 \<le> rat_of_int n" using assms(1) by simp
  have "rat_of_int n \<le> of_int (2 ^ 47)"
    using assms(2) by (simp only: of_int_le_iff)
  then have n2: "rat_of_int n \<le> 2 ^ 47" by simp
  have xpos: "0 < x" using n1 c by (simp add: x_def)
  have "x < 2 ^ 47" using n2 c by (simp add: x_def)
  also have "\<dots> = pow2 47" by (simp add: pow2_def)
  finally have "pow2 (ilog2 x) < pow2 47"
    using ilog2_lower [OF xpos] by simp
  then have "ilog2 x < 47" by (simp only: pow2_less_iff)
  then have "q \<le> - 6" by (simp add: q_def)
  then have "pow2 q \<le> pow2 (- 6)" by (simp only: pow2_le_iff)
  also have "\<dots> = 1 / 64" by (simp add: pow2_def)
  finally have "pow2 q / 2 \<le> 1 / 128" by simp
  moreover have "\<bar>r - x\<bar> \<le> pow2 q / 2"
    using xpos q_def r_def by (rule round_double_error(1))
  ultimately have e: "\<bar>r - x\<bar> \<le> 1 / 128" by simp
  then have lo: "of_int n - 1 < r" and hi: "r < of_int n"
    using c unfolding x_def by linarith+
  have "r < 2 ^ 47" using hi n2 by simp
  also have "(2 ^ 47 :: rat) < pow2 1024" by (simp add: pow2_def)
  finally have "round_double x = Finite r"
    using xpos q_def r_def by (intro round_double_error(2))
  moreover have "calculateMaxBreakpoint v = round_double x"
  proof -
    have "round_double (2 / 100) = Finite c"
      unfolding c_def by (rule round_double_0_02)
    then show ?thesis
      by (simp only: calculateMaxBreakpoint_def assms(3) js_sub.simps x_def)
  qed
  ultimately show ?thesis using lo hi by simp
qed

lemma js_le_Finite: "js_le (Finite a) (Finite b) = (a \<le> b)"
  by (simp add: js_le_def not_less)

lemma ToBoolean_Finite: "ToBoolean (Finite a) = (a \<noteq> 0)"
  by (simp add: ToBoolean_def)

lemma of_int_le_99_98:
  "(rat_of_int k \<le> 7035467042882847 / 2 ^ 46) = (k < 100)"
proof
  assume "rat_of_int k \<le> 7035467042882847 / 2 ^ 46"
  then have "rat_of_int k < 100" by simp
  then have "rat_of_int k < rat_of_int 100" by simp
  then show "k < 100" by (simp only: of_int_less_iff)
next
  assume "k < 100"
  then have "k \<le> 99" by simp
  then have "rat_of_int k \<le> rat_of_int 99" by (simp only: of_int_le_iff)
  then show "rat_of_int k \<le> 7035467042882847 / 2 ^ 46" by simp
qed

text \<open>
  Hence a whole number of pixels is at most the threshold exactly when it is below the
  breakpoint: the breakpoint width itself is on the desktop side.
\<close>

lemma calculateMaxBreakpoint_whole_pixels:
  assumes "ds \<noteq> []" and "\<forall>c\<in>set ds. is_digit c" and "rest = [] \<or> \<not> is_digit (hd rest)"
    and "1 \<le> decimal_value ds" and "decimal_value ds \<le> 2 ^ 47"
  shows "js_le (Finite (of_int k)) (calculateMaxBreakpoint (ds @ rest)) = (k < decimal_value ds)"
proof -
  define n where "n = decimal_value ds"
  have "\<bar>n\<bar> < 2 ^ 53" using assms(4,5) by (simp add: n_def)
  then have "round_double (of_int n) = Finite (of_int n)"
    by (rule round_double_of_int)
  then have "parseInt_10 (ds @ rest) = Finite (of_int n)"
    using parseInt_10_leading_digits [OF assms(1-3)] by (simp add: n_def)
  with assms(4,5) obtain r where r: "calculateMaxBreakpoint (ds @ rest) = Finite r"
    and lo: "of_int n - 1 < r" and hi: "r < of_int n"
    unfolding n_def [symmetric] using calculateMaxBreakpoint_between by blast
  have "(rat_of_int k \<le> r) = (k < n)"
  proof
    assume "rat_of_int k \<le> r"
    with hi have "rat_of_int k < of_int n" by simp
    then show "k < n" by (simp only: of_int_less_iff)
  next
    assume "k < n"
    then have "k \<le> n - 1" by simp
    then have "rat_of_int k \<le> of_int (n - 1)" by (simp only: of_int_le_iff)
    with lo show "rat_of_int k \<le> r" by simp
  qed
  then show ?thesis by (simp only: r js_le_Finite n_def)
qed

section \<open>Reading the window, applying state updates\<close>

text \<open>
  With a binding the identifier evaluates to what the binding holds; without one it
  throws. \<open>shouldCollapse\<close> returns whenever the binding exists. Applying the queue of an
  instance that has nothing enqueued changes nothing, and an update enqueued last is
  merged last.
\<close>

lemma read_window_Resolves: "read_window (Resolves v) = Inr v"
  by (simp add: read_window_def)

lemma read_window_Unresolvable: "read_window Unresolvable = Inl ReferenceError"
  by (simp add: read_window_def)

lemma shouldCollapse_Resolves_returns: "\<exists>b. shouldCollapse (Resolves win) p bp = Inr b"
  by (auto simp: shouldCollapse_def read_window_Resolves
      split: option.split SidebarState.split)

lemma flush_setState:
  "flush (setState u c) = (flush c)\<lparr>state := merge_state (state (flush c)) u\<rparr>"
  by (simp add: flush_def setState_def)

lemma flush_no_pending: "pending c = [] \<Longrightarrow> flush c = c"
  by (simp add: flush_def)

section \<open>The initialization rule\<close>

text \<open>
  Claim C1 says that under the AUTO (or unset) directive with a viewport width available the
  initial collapsed state is true exactly when the width is at most the breakpoint, and
  that for the breakpoint \<open>100px\<close> the widths 50, 150 and 100 give true, false and true.
  The last part fails: \<open>calculateMaxBreakpoint\<close> takes the margin of 0.02 off the
  breakpoint, so at width 100, which is at most the parsed breakpoint 100, the sidebar
  starts expanded.
\<close>

theorem shouldCollapse_auto_at_breakpoint_counterexample:
  "js_le (innerWidth (example_window 100)) (parseInt_10 ''100px'')
   \<and> shouldCollapse (Resolves (Some (example_window 100))) (example_props (Some AUTO))
       (calculateMaxBreakpoint (md (breakpoints (theme (example_props (Some AUTO))))))
       = Inr False
   \<and> Sidebar_constructor (Resolves (Some (example_window 100))) 1 (example_props (Some AUTO))
       = Inr \<lparr> this = 1, props = example_props (Some AUTO),
               state = \<lparr> collapsedSidebar = False, lastInnerWidth = Finite 100,
                         hideScrollbar = False \<rparr>,
               pending = [], mediumBreakpointPx = calculateMaxBreakpoint ''100px'',
               sidebarRef = None \<rparr>"
  by (simp add: example_defs parseInt_10_100px calculateMaxBreakpoint_100px shouldCollapse_def
      Sidebar_constructor_def read_window_Resolves ToBoolean_def js_le_def)

text \<open>
  Claim C1, amended. Under the AUTO (or unset) directive with a window present,
  \<open>shouldCollapse\<close> returns true exactly when the viewport width is truthy (neither zero
  nor NaN) and at most the threshold \<open>mediumBreakpointPx\<close> it is given, which the
  constructor computes as \<open>parseInt(md, 10) - 0.02\<close>. For the breakpoint \<open>100px\<close> and a
  whole number \<open>k\<close> of pixels the constructor therefore returns an instance that is
  collapsed exactly when \<open>k\<close> is not zero and below 100: width 50 gives true, widths 150
  and 100 give false.
\<close>

theorem shouldCollapse_auto_threshold:
  assumes "initialSidebarState p = None \<or> initialSidebarState p = Some AUTO"
  shows "shouldCollapse (Resolves (Some w)) p bp
           = Inr (ToBoolean (innerWidth w) \<and> js_le (innerWidth w) bp)
   \<and> (md (breakpoints (theme p)) = ''100px'' \<and> innerWidth w = Finite (of_int k)
        \<longrightarrow> (\<exists>c. Sidebar_constructor (Resolves (Some w)) i p = Inr c
                 \<and> collapsedSidebar (state c) = (k \<noteq> 0 \<and> k < 100)))"
proof (intro conjI impI)
  show a: "shouldCollapse (Resolves (Some w)) p bp
             = Inr (ToBoolean (innerWidth w) \<and> js_le (innerWidth w) bp)" for bp
    using assms by (auto simp: shouldCollapse_def read_window_Resolves)
  assume h: "md (breakpoints (theme p)) = ''100px'' \<and> innerWidth w = Finite (of_int k)"
  have "(ToBoolean (innerWidth w) \<and> js_le (innerWidth w) (calculateMaxBreakpoint ''100px''))
          = (ToBoolean (Finite (of_int k))
             \<and> js_le (Finite (of_int k)) (Finite (7035467042882847 / 2 ^ 46)))"
    using h by (simp only: calculateMaxBreakpoint_100px)
  also have "\<dots> = (k \<noteq> 0 \<and> k < 100)"
    by (simp only: js_le_Finite ToBoolean_Finite of_int_le_99_98 of_int_eq_0_iff)
  finally have b: "shouldCollapse (Resolves (Some w)) p (calculateMaxBreakpoint ''100px'')
                     = Inr (k \<noteq> 0 \<and> k < 100)"
    by (simp only: a)
  show "\<exists>c. Sidebar_constructor (Resolves (Some w)) i p = Inr c
            \<and> collapsedSidebar (state c) = (k \<noteq> 0 \<and> k < 100)"
    using h b by (simp add: Sidebar_constructor_def Let_def read_window_Resolves)
qed

theorem shouldCollapse_auto_threshold_witness:
  "(\<exists>c. Sidebar_constructor (Resolves (Some (example_window 50))) 1
            (example_props (Some AUTO)) = Inr c
        \<and> collapsedSidebar (state c) = True)
   \<and> (\<exists>c. Sidebar_constructor (Resolves (Some (example_window 150))) 1
            (example_props (Some AUTO)) = Inr c
        \<and> collapsedSidebar (state c) = False)
   \<and> (\<exists>c. Sidebar_constructor (Resolves (Some (example_window 100))) 1
            (example_props None) = Inr c
        \<and> collapsedSidebar (state c) = False)"
  using shouldCollapse_auto_threshold [of "example_props (Some AUTO)" "example_window 50"
        "calculateMaxBreakpoint ''100px''" 50 1]
    shouldCollapse_auto_threshold [of "example_props (Some AUTO)" "example_window 150"
        "calculateMaxBreakpoint ''100px''" 150 1]
    shouldCollapse_auto_threshold [of "example_props None" "example_window 100"
        "calculateMaxBreakpoint ''100px''" 100 1]
  by (simp add: example_defs)

text \<open>
  Claim C6. For each of the directives EXPANDED and COLLAPSED, whatever the window (these
  branches do not read it) and whatever the breakpoint, \<open>shouldCollapse\<close> returns
  whether the directive is COLLAPSED: EXPANDED gives false, COLLAPSED gives true; and
  this is the collapsed flag of the state the constructor builds, whatever the binding
  of \<open>window\<close> holds (a window of any width, or a falsy value).
\<close>

theorem shouldCollapse_explicit_directive:
  "shouldCollapse wb (p\<lparr>initialSidebarState := Some EXPANDED\<rparr>) bp = Inr False
   \<and> shouldCollapse wb (p\<lparr>initialSidebarState := Some COLLAPSED\<rparr>) bp = Inr True
   \<and> (\<exists>c. Sidebar_constructor (Resolves win) i (p\<lparr>initialSidebarState := Some EXPANDED\<rparr>)
              = Inr c
        \<and> collapsedSidebar (state c) = False)
   \<and> (\<exists>c. Sidebar_constructor (Resolves win) i (p\<lparr>initialSidebarState := Some COLLAPSED\<rparr>)
              = Inr c
        \<and> collapsedSidebar (state c) = True)"
  by (simp add: shouldCollapse_def Sidebar_constructor_def Let_def read_window_Resolves)

text \<open>
  Claim C10. Under the AUTO (or unset) directive, when the window is present and its
  \<open>innerWidth\<close> is 0, \<open>shouldCollapse\<close> takes the falsy width for an unavailable one and
  returns false, although 0 is at most every positive threshold.
\<close>

theorem shouldCollapse_zero_width:
  assumes "initialSidebarState p = None \<or> initialSidebarState p = Some AUTO"
    and "innerWidth w = Finite 0"
  shows "shouldCollapse (Resolves (Some w)) p bp = Inr False
         \<and> (js_lt (Finite 0) bp \<longrightarrow> js_le (innerWidth w) bp)"
  using assms
  by (cases bp) (auto simp: shouldCollapse_def read_window_Resolves ToBoolean_def js_le_def)

theorem shouldCollapse_zero_width_witness:
  "shouldCollapse (Resolves (Some (example_window 0))) (example_props (Some AUTO))
     (calculateMaxBreakpoint ''100px'') = Inr False
   \<and> js_lt (Finite 0) (calculateMaxBreakpoint ''100px'')
   \<and> js_le (innerWidth (example_window 0)) (calculateMaxBreakpoint ''100px'')"
  using shouldCollapse_zero_width [of "example_props (Some AUTO)" "example_window 0"
      "calculateMaxBreakpoint ''100px''"]
  by (simp add: example_defs calculateMaxBreakpoint_100px)

section \<open>The derived breakpoint\<close>



section \<open>Without a window\<close>

text \<open>
  Claim C8 says that when the global \<open>window\<close> is unavailable at construction no failure
  is raised and defaults apply (the last recorded width is Infinity, the AUTO rule gives
  collapsed = false), and that the resize handler then returns without changing the
  state. The code guards its reads with truthiness tests of the bare identifier
  (\<open>window ? ... : Infinity\<close>, \<open>window || {}\<close>, \<open>!window\<close>). These help only where a
  binding named \<open>window\<close> exists and holds a falsy value: there the defaults apply as
  claimed. In a non-browser context there is no such binding, and both the constructor
  (for every directive) and the resize handler throw a ReferenceError at their first read
  of \<open>window\<close>; the guard the code attempts needed \<open>typeof window\<close>.
\<close>

theorem window_unresolvable_raises:
  "Sidebar_constructor Unresolvable i p = Inl ReferenceError
   \<and> checkMobileOnResize Unresolvable c = Inl ReferenceError
   \<and> (\<exists>c'. Sidebar_constructor (Resolves None) i (p\<lparr>initialSidebarState := Some AUTO\<rparr>) = Inr c'
         \<and> lastInnerWidth (state c') = Infinity \<and> collapsedSidebar (state c') = False)
   \<and> (\<exists>c'. Sidebar_constructor (Resolves None) i (p\<lparr>initialSidebarState := None\<rparr>) = Inr c'
         \<and> lastInnerWidth (state c') = Infinity \<and> collapsedSidebar (state c') = False)
   \<and> checkMobileOnResize (Resolves None) c = Inr (False, c)"
proof -
  have "Sidebar_constructor Unresolvable i p = Inl ReferenceError"
    by (simp add: Sidebar_constructor_def shouldCollapse_def read_window_Unresolvable Let_def
        split: option.split SidebarState.split)
  then show ?thesis
    by (simp add: Sidebar_constructor_def shouldCollapse_def checkMobileOnResize_def Let_def
        read_window_Unresolvable read_window_Resolves)
qed

section \<open>Recomputing on a directive change\<close>

text \<open>
  Claim C4. When the \<open>initialSidebarState\<close> of the new props differs from that of the
  previous props (and the binding of \<open>window\<close> exists), \<open>componentDidUpdate\<close> enqueues
  the collapsed flag that \<open>shouldCollapse\<close> gives for the new props, the breakpoint of
  the current theme and the current window. Once React has applied the update, the flag
  has that value and the rest of the state is as it was; the flag that user interaction
  or resizes had left in the state has no influence on the result.
\<close>

theorem componentDidUpdate_recomputes_on_directive_change:
  assumes "initialSidebarState (props c) \<noteq> initialSidebarState prevProps"
  shows "\<exists>b. shouldCollapse (Resolves win) (props c)
                 (calculateMaxBreakpoint (md (breakpoints (theme (props c))))) = Inr b
           \<and> componentDidUpdate (Resolves win) prevProps c
               = Inr (setState (Update_collapsedSidebar b)
                       (c\<lparr>mediumBreakpointPx :=
                            calculateMaxBreakpoint (md (breakpoints (theme (props c))))\<rparr>))
           \<and> (pending c = [] \<longrightarrow>
                flush (setState (Update_collapsedSidebar b)
                        (c\<lparr>mediumBreakpointPx :=
                             calculateMaxBreakpoint (md (breakpoints (theme (props c))))\<rparr>))
                  = c\<lparr>mediumBreakpointPx :=
                         calculateMaxBreakpoint (md (breakpoints (theme (props c)))),
                       state := (state c)\<lparr>collapsedSidebar := b\<rparr>\<rparr>)
           \<and> (\<forall>b0. \<exists>c'. componentDidUpdate (Resolves win) prevProps
                              (c\<lparr>state := (state c)\<lparr>collapsedSidebar := b0\<rparr>\<rparr>) = Inr c'
                        \<and> collapsedSidebar (state (flush c')) = b)"
proof -
  obtain b where b: "shouldCollapse (Resolves win) (props c)
      (calculateMaxBreakpoint (md (breakpoints (theme (props c))))) = Inr b"
    using shouldCollapse_Resolves_returns by blast
  show ?thesis
    using assms b
    by (intro exI [of _ b]) (simp add: componentDidUpdate_def Let_def flush_def setState_def)
qed

theorem componentDidUpdate_recomputes_on_directive_change_witness:
  "initialSidebarState (props (example_sidebar True 200))
     \<noteq> initialSidebarState (example_props (Some COLLAPSED))
   \<and> collapsedSidebar (state (example_sidebar True 200)) = True
   \<and> (\<exists>c'. componentDidUpdate (Resolves (Some (example_window 150)))
              (example_props (Some COLLAPSED)) (example_sidebar True 200) = Inr c'
         \<and> flush c' = (example_sidebar True 200)
              \<lparr>state := (state (example_sidebar True 200))\<lparr>collapsedSidebar := False\<rparr>\<rparr>)"
proof -
  have d: "initialSidebarState (props (example_sidebar True 200))
             \<noteq> initialSidebarState (example_props (Some COLLAPSED))"
    by (simp add: example_defs)
  have s: "shouldCollapse (Resolves (Some (example_window 150)))
             (props (example_sidebar True 200))
             (calculateMaxBreakpoint (md (breakpoints (theme (props (example_sidebar True 200))))))
           = Inr False"
    by (simp add: example_defs shouldCollapse_def read_window_Resolves ToBoolean_def js_le_def
        calculateMaxBreakpoint_100px)
  have p: "pending (example_sidebar True 200) = []"
    by (simp add: example_defs)
  have m: "(example_sidebar True 200)\<lparr>mediumBreakpointPx :=
             calculateMaxBreakpoint (md (breakpoints (theme (props (example_sidebar True 200)))))\<rparr>
           = example_sidebar True 200"
    by (simp add: example_defs)
  from componentDidUpdate_recomputes_on_directive_change
      [OF d, of "Some (example_window 150)"] s p
  have "componentDidUpdate (Resolves (Some (example_window 150)))
          (example_props (Some COLLAPSED)) (example_sidebar True 200)
        = Inr (setState (Update_collapsedSidebar False) (example_sidebar True 200))
      \<and> flush (setState (Update_collapsedSidebar False) (example_sidebar True 200))
        = (example_sidebar True 200)
            \<lparr>state := (state (example_sidebar True 200))\<lparr>collapsedSidebar := False\<rparr>\<rparr>"
    unfolding m by auto
  then show ?thesis
    using d by (simp add: example_defs)
qed

section \<open>Resize handling\<close>

text \<open>
  Claim C2. On a resize (the window present), the handler returns true, having enqueued
  the collapsed flag if the new width is smaller than the last recorded one and at most
  the breakpoint threshold, and then the new width as the last recorded one. Once React
  has applied the updates, the last recorded width is the new width in every case, the
  sidebar is collapsed in the narrowing case, and otherwise the flag is as it was, so a
  widening resize never expands the sidebar.
\<close>

theorem checkMobileOnResize_narrowing_collapses:
  "\<exists>c'. checkMobileOnResize (Resolves (Some w)) c = Inr (True, c')
     \<and> c' = setState (Update_lastInnerWidth (innerWidth w))
              (if js_lt (innerWidth w) (lastInnerWidth (state c))
                  \<and> js_le (innerWidth w) (mediumBreakpointPx c)
               then setState (Update_collapsedSidebar True) c else c)
     \<and> lastInnerWidth (state (flush c')) = innerWidth w
     \<and> (js_lt (innerWidth w) (lastInnerWidth (state c))
          \<and> js_le (innerWidth w) (mediumBreakpointPx c)
        \<longrightarrow> collapsedSidebar (state (flush c')))
     \<and> (pending c = [] \<longrightarrow>
          flush c' = c\<lparr>state := (state c)
             \<lparr>collapsedSidebar := collapsedSidebar (state c)
                 \<or> (js_lt (innerWidth w) (lastInnerWidth (state c))
                     \<and> js_le (innerWidth w) (mediumBreakpointPx c)),
              lastInnerWidth := innerWidth w\<rparr>\<rparr>)
     \<and> (pending c = []
          \<and> \<not> (js_lt (innerWidth w) (lastInnerWidth (state c))
                \<and> js_le (innerWidth w) (mediumBreakpointPx c))
        \<longrightarrow> collapsedSidebar (state (flush c')) = collapsedSidebar (state c))"
  by (cases "js_lt (innerWidth w) (lastInnerWidth (state c))";
      cases "js_le (innerWidth w) (mediumBreakpointPx c)")
     (simp_all add: checkMobileOnResize_def read_window_Resolves Let_def flush_def setState_def)

theorem checkMobileOnResize_narrowing_collapses_witness:
  "js_lt (innerWidth (example_window 80)) (lastInnerWidth (state (example_sidebar False 200)))
   \<and> js_le (innerWidth (example_window 80)) (mediumBreakpointPx (example_sidebar False 200))
   \<and> (\<exists>c'. checkMobileOnResize (Resolves (Some (example_window 80)))
              (example_sidebar False 200) = Inr (True, c')
         \<and> collapsedSidebar (state (flush c'))
         \<and> lastInnerWidth (state (flush c')) = Finite 80)
   \<and> \<not> js_lt (innerWidth (example_window 200)) (lastInnerWidth (state (example_sidebar True 80)))
   \<and> (\<exists>c'. checkMobileOnResize (Resolves (Some (example_window 200)))
              (example_sidebar True 80) = Inr (True, c')
         \<and> collapsedSidebar (state (flush c')) = True
         \<and> lastInnerWidth (state (flush c')) = Finite 200)"
proof -
  have a: "js_lt (innerWidth (example_window 80))
             (lastInnerWidth (state (example_sidebar False 200)))"
    and b: "js_le (innerWidth (example_window 80))
             (mediumBreakpointPx (example_sidebar False 200))"
    and n: "\<not> js_lt (innerWidth (example_window 200))
             (lastInnerWidth (state (example_sidebar True 80)))"
    by (simp_all add: example_defs calculateMaxBreakpoint_100px js_le_def)
  have p: "pending (example_sidebar False 200) = []" "pending (example_sidebar True 80) = []"
    by (simp_all add: example_defs)
  have w: "innerWidth (example_window 80) = Finite 80"
    "innerWidth (example_window 200) = Finite 200"
    "collapsedSidebar (state (example_sidebar True 80)) = True"
    by (simp_all add: example_defs)
  show ?thesis
    using checkMobileOnResize_narrowing_collapses
        [of "example_window 80" "example_sidebar False 200"]
      checkMobileOnResize_narrowing_collapses
        [of "example_window 200" "example_sidebar True 80"]
      a b n p w
    by auto
qed

section \<open>Outside-interaction handling\<close>

text \<open>
  Claim C3. On a pointer-down event, with the window present and the root element
  mounted: if the root does not contain the event target and the viewport width is at
  most the breakpoint threshold, the handler enqueues the collapsed flag and nothing
  else, so that the sidebar is collapsed once React has applied the update; if the
  width is not at most the threshold, or the target is inside the root, the instance is
  unchanged and nothing is enqueued.
\<close>

theorem handleClickOutside_collapses_outside_below_breakpoint:
  assumes "sidebarRef c = Some el"
  shows "(\<not> contains el (target ev) \<and> js_le (innerWidth w) (mediumBreakpointPx c)
            \<longrightarrow> handleClickOutside (Resolves (Some w)) ev c
                  = Inr (setState (Update_collapsedSidebar True) c)
                \<and> collapsedSidebar (state (flush (setState (Update_collapsedSidebar True) c)))
                \<and> (pending c = [] \<longrightarrow>
                     flush (setState (Update_collapsedSidebar True) c)
                       = c\<lparr>state := (state c)\<lparr>collapsedSidebar := True\<rparr>\<rparr>))
         \<and> (\<not> js_le (innerWidth w) (mediumBreakpointPx c)
            \<longrightarrow> handleClickOutside (Resolves (Some w)) ev c = Inr c)
         \<and> (contains el (target ev) \<longrightarrow> handleClickOutside (Resolves (Some w)) ev c = Inr c)"
  using assms
  by (simp add: handleClickOutside_def read_window_Resolves flush_def setState_def)

theorem handleClickOutside_collapses_outside_below_breakpoint_witness:
  "handleClickOutside (Resolves (Some (example_window 80))) \<lparr>target = Some 99\<rparr>
       (example_sidebar False 200)
     = Inr (setState (Update_collapsedSidebar True) (example_sidebar False 200))
   \<and> flush (setState (Update_collapsedSidebar True) (example_sidebar False 200))
     = example_sidebar True 200
   \<and> handleClickOutside (Resolves (Some (example_window 200))) \<lparr>target = Some 99\<rparr>
       (example_sidebar False 200) = Inr (example_sidebar False 200)
   \<and> handleClickOutside (Resolves (Some (example_window 80))) \<lparr>target = Some 13\<rparr>
       (example_sidebar False 200) = Inr (example_sidebar False 200)"
  using handleClickOutside_collapses_outside_below_breakpoint
      [of "example_sidebar False 200" "Element 10 [Element 11 [], Element 12 [Element 13 []]]"
          "\<lparr>target = Some 99\<rparr>" "example_window 80"]
    handleClickOutside_collapses_outside_below_breakpoint
      [of "example_sidebar False 200" "Element 10 [Element 11 [], Element 12 [Element 13 []]]"
          "\<lparr>target = Some 99\<rparr>" "example_window 200"]
    handleClickOutside_collapses_outside_below_breakpoint
      [of "example_sidebar False 200" "Element 10 [Element 11 [], Element 12 [Element 13 []]]"
          "\<lparr>target = Some 13\<rparr>" "example_window 80"]
  by (simp add: example_defs calculateMaxBreakpoint_100px js_le_def contains_def)

section \<open>Manual toggle\<close>




section \<open>Listener registration\<close>

text \<open>
  Removing a listener that was appended to a list which did not hold it gives the list
  back; and removing the component's listener from a duplicate-free list in which it is
  the component's only one leaves exactly the listeners of the others.
\<close>

lemma remove1_appended: "x \<notin> set xs \<Longrightarrow> remove1 x (xs @ [x]) = xs"
  by (simp add: remove1_append)

lemma remove1_keeps_foreign:
  assumes "distinct xs" and "callback_owner (snd x) = Some i"
    and "\<forall>l\<in>set xs. callback_owner (snd l) = Some i \<longrightarrow> l = x"
  shows "remove1 x xs = filter (\<lambda>l. callback_owner (snd l) \<noteq> Some i) xs"
proof -
  have "remove1 x xs = filter (\<lambda>l. l \<noteq> x) xs"
    using assms(1) by (simp add: distinct_remove1_removeAll removeAll_filter_not_eq) metis
  also have "\<dots> = filter (\<lambda>l. callback_owner (snd l) \<noteq> Some i) xs"
    using assms(2,3) by (intro filter_cong) auto
  finally show ?thesis .
qed

text \<open>
  Claim C9. On a page without listeners of the component, mounting registers exactly two:
  \<open>checkMobileOnResize\<close> for \<open>resize\<close> on the window and \<open>handleClickOutside\<close> for
  \<open>mousedown\<close> on the document; unmounting right away restores the page. Whatever
  happened to the page between mount and unmount (other listeners added or removed, the
  window resized), as long as the component's callbacks are registered only as mounting
  registered them, \<open>componentWillUnmount\<close> removes these two handlers from the same
  targets and types: afterwards no listener of the component is left, and the listeners
  of others are untouched.
\<close>

theorem listeners_registered_at_mount_removed_at_unmount:
  assumes "window g = Resolves (Some w)"
    and "\<forall>l\<in>set (listeners w) \<union> set (listeners (document g)).
           callback_owner (snd l) \<noteq> Some (this c)"
    and "window g2 = Resolves (Some w2)"
    and "distinct (listeners w2)" and "distinct (listeners (document g2))"
    and "\<forall>l\<in>set (listeners w2). callback_owner (snd l) = Some (this c)
           \<longrightarrow> l = (''resize'', CheckMobileOnResize (this c))"
    and "\<forall>l\<in>set (listeners (document g2)). callback_owner (snd l) = Some (this c)
           \<longrightarrow> l = (''mousedown'', HandleClickOutside (this c))"
  shows "(\<exists>g' w'. componentDidMount c g = Inr g' \<and> window g' = Resolves (Some w')
           \<and> listeners w' = listeners w @ [(''resize'', CheckMobileOnResize (this c))]
           \<and> listeners (document g')
               = listeners (document g) @ [(''mousedown'', HandleClickOutside (this c))]
           \<and> componentWillUnmount c g' = Inr g)
         \<and> (\<exists>g3 w3. componentWillUnmount c g2 = Inr g3 \<and> window g3 = Resolves (Some w3)
           \<and> listeners w3
               = filter (\<lambda>l. callback_owner (snd l) \<noteq> Some (this c)) (listeners w2)
           \<and> listeners (document g3)
               = filter (\<lambda>l. callback_owner (snd l) \<noteq> Some (this c)) (listeners (document g2)))"
proof
  have a: "(''resize'', CheckMobileOnResize (this c)) \<notin> set (listeners w)"
    using assms(2) by force
  have b: "(''mousedown'', HandleClickOutside (this c)) \<notin> set (listeners (document g))"
    using assms(2) by force
  show "\<exists>g' w'. componentDidMount c g = Inr g' \<and> window g' = Resolves (Some w')
           \<and> listeners w' = listeners w @ [(''resize'', CheckMobileOnResize (this c))]
           \<and> listeners (document g')
               = listeners (document g) @ [(''mousedown'', HandleClickOutside (this c))]
           \<and> componentWillUnmount c g' = Inr g"
    using assms(1) a b
    by (simp add: componentDidMount_def componentWillUnmount_def addEventListener_def
        removeEventListener_def remove1_appended read_window_Resolves)
next
  have a: "remove1 (''resize'', CheckMobileOnResize (this c)) (listeners w2)
             = filter (\<lambda>l. callback_owner (snd l) \<noteq> Some (this c)) (listeners w2)"
    using assms(4,6) by (intro remove1_keeps_foreign) simp_all
  have b: "remove1 (''mousedown'', HandleClickOutside (this c)) (listeners (document g2))
             = filter (\<lambda>l. callback_owner (snd l) \<noteq> Some (this c)) (listeners (document g2))"
    using assms(5,7) by (intro remove1_keeps_foreign) simp_all
  show "\<exists>g3 w3. componentWillUnmount c g2 = Inr g3 \<and> window g3 = Resolves (Some w3)
           \<and> listeners w3
               = filter (\<lambda>l. callback_owner (snd l) \<noteq> Some (this c)) (listeners w2)
           \<and> listeners (document g3)
               = filter (\<lambda>l. callback_owner (snd l) \<noteq> Some (this c)) (listeners (document g2))"
    using assms(3) a b
    by (simp add: componentWillUnmount_def removeEventListener_def read_window_Resolves)
qed

theorem listeners_registered_at_mount_removed_at_unmount_witness:
  "(\<exists>g' w'. componentDidMount (example_sidebar False 200) example_globals = Inr g'
      \<and> window g' = Resolves (Some w')
      \<and> listeners w' = [(''scroll'', Foreign 7), (''resize'', CheckMobileOnResize 1)]
      \<and> listeners (document g') = [(''mousedown'', Foreign 8), (''mousedown'', HandleClickOutside 1)]
      \<and> componentWillUnmount (example_sidebar False 200) g' = Inr example_globals)
   \<and> (\<exists>g3 w3. componentWillUnmount (example_sidebar False 200) example_globals_later = Inr g3
      \<and> window g3 = Resolves (Some w3)
      \<and> listeners w3 = [(''scroll'', Foreign 7), (''resize'', Foreign 9)]
      \<and> listeners (document g3) = [(''mousedown'', Foreign 8)])"
  using listeners_registered_at_mount_removed_at_unmount
      [of example_globals "\<lparr> listeners = [(''scroll'', Foreign 7)], innerWidth = Finite 200 \<rparr>"
          "example_sidebar False 200" example_globals_later
          "\<lparr> listeners = [(''scroll'', Foreign 7), (''resize'', CheckMobileOnResize 1),
                          (''resize'', Foreign 9)], innerWidth = Finite 80 \<rparr>"]
  by (simp add: example_globals_def example_globals_later_def example_sidebar_def)

end
